theory Spec2Isabelle
  imports Complex_Main "HOL-Library.Option_ord" "HOL-Library.AList"
begin

section \<open>Configuration (notebook step 3)\<close>

text \<open>
  The notebook fixes two module-level constants: \<^verbatim>\<open>max_length = 128\<close> and
  \<^verbatim>\<open>num_samples = 1000\<close>.
\<close>

definition max_length :: nat where
  "max_length = 128"

definition num_samples :: nat where
  "num_samples = 1000"

section \<open>Values exchanged with the external libraries\<close>

text \<open>
  Exceptions are values. The tokenizer, the encoder and numpy raise members of Python's
  one exception hierarchy; the extractor has no \<^verbatim>\<open>try\<close>, so whatever is raised
  leaves the function as it is.
\<close>

datatype exn = ValueError | TypeError | KeyError | RuntimeError | OutOfMemoryError

text \<open>
  A hidden-state vector is a list of reals (float arithmetic idealised to the reals), a
  tensor of shape (batch, sequence, hidden) a list of lists of vectors. A torch tensor is
  rectangular; the lists that stand for one are rectangular whenever the collaborators
  keep their interface, which the theorems below assume where they need it.
\<close>

type_synonym vec = "real list"

type_synonym tensor3 = "vec list list"

record batch_encoding =
  input_ids :: "nat list list"
  attention_mask :: "nat list list"

record ndarray =
  shape :: "nat list"
  rows :: "vec list"

text \<open>
  The two collaborators are parameters of \<^verbatim>\<open>get_model_embeddings\<close>. They are
  arbitrary callables, so they may read and change a world \<open>'w\<close> and they may raise.
  The tokenizer is called with \<^verbatim>\<open>padding="max_length", truncation=True\<close> and the
  maximal length; only the batch and the length vary.
\<close>

type_synonym 'w tokenizer = "string list \<Rightarrow> nat \<Rightarrow> 'w \<Rightarrow> (exn + batch_encoding) \<times> 'w"

type_synonym 'w encoder = "batch_encoding \<Rightarrow> 'w \<Rightarrow> (exn + tensor3) \<times> 'w"

section \<open>Library operations the extractor calls\<close>

text \<open>
  \<^verbatim>\<open>range(start, stop, step)\<close> for a non-negative start and a positive step. A
  zero step raises in Python; the caller below checks for it before the range is built.
\<close>

function py_range :: "nat \<Rightarrow> nat \<Rightarrow> nat \<Rightarrow> nat list" where
  "py_range start stop step =
     (if step = 0 \<or> stop \<le> start then [] else start # py_range (start + step) stop step)"
  by pat_completeness auto
termination
  by (relation "measure (\<lambda>(start, stop, step). stop - start)") auto

declare py_range.simps [simp del]

text \<open>\<^verbatim>\<open>xs[i:j]\<close> for \<open>0 \<le> i \<le> j\<close>: the slice is clipped at the end of the list.\<close>

definition slice :: "'a list \<Rightarrow> nat \<Rightarrow> nat \<Rightarrow> 'a list" where
  "slice xs i j = take (j - i) (drop i xs)"

text \<open>
  \<^verbatim>\<open>t.mean(dim=1)\<close> on a tensor of shape (b, s, d): the result has shape (b, d), and
  entry (r, k) is the sum of \<open>t[r][j][k]\<close> over all s positions j, divided by s.
\<close>

definition hidden_size :: "vec list \<Rightarrow> nat" where
  "hidden_size s = (case s of [] \<Rightarrow> 0 | v # _ \<Rightarrow> length v)"

definition mean_dim1 :: "tensor3 \<Rightarrow> vec list" where
  "mean_dim1 t =
     map (\<lambda>s. map (\<lambda>k. (\<Sum>v\<leftarrow>s. v ! k) / real (length s)) [0..<hidden_size s]) t"

text \<open>
  \<^verbatim>\<open>np.array(embeddings)\<close> on a list of one-dimensional arrays. The empty list gives
  the one-dimensional empty array of shape (0,); rows of one length d give shape (n, d);
  rows of different lengths raise ValueError.
\<close>

definition np_array :: "vec list \<Rightarrow> exn + ndarray" where
  "np_array embeddings =
     (case embeddings of
        [] \<Rightarrow> Inr \<lparr>shape = [0], rows = []\<rparr>
      | emb # embs \<Rightarrow>
          if list_all (\<lambda>x. length x = length emb) embs
          then Inr \<lparr>shape = [length embeddings, length emb], rows = embeddings\<rparr>
          else Inl ValueError)"

section \<open>The batch embedding extractor (notebook step 6)\<close>

text \<open>
  The body of the \<^verbatim>\<open>for i in range(0, len(texts), batch_size)\<close> loop, run over the
  list of start indices. A raise of the tokenizer or of the encoder ends the loop with
  that exception; no row collected so far is returned.
\<close>

fun embed_batches ::
  "nat list \<Rightarrow> nat \<Rightarrow> string list \<Rightarrow> 'w tokenizer \<Rightarrow> 'w encoder \<Rightarrow> vec list \<Rightarrow> 'w
     \<Rightarrow> (exn + vec list) \<times> 'w" where
  "embed_batches [] batch_size texts tokenizer model embeddings w = (Inr embeddings, w)"
| "embed_batches (i # idxs) batch_size texts tokenizer model embeddings w =
     (let batch_texts = slice texts i (i + batch_size) in
      case tokenizer batch_texts max_length w of
        (Inl e, w1) \<Rightarrow> (Inl e, w1)
      | (Inr inputs, w1) \<Rightarrow>
          (case model inputs w1 of
             (Inl e, w2) \<Rightarrow> (Inl e, w2)
           | (Inr last_hidden_state, w2) \<Rightarrow>
               embed_batches idxs batch_size texts tokenizer model
                 (embeddings @ mean_dim1 last_hidden_state) w2))"

text \<open>
  The function with its local \<^verbatim>\<open>batch_size\<close> as a parameter, and the function as
  the notebook defines it, with \<^verbatim>\<open>batch_size = 8\<close>.
\<close>

definition get_model_embeddings_with ::
  "nat \<Rightarrow> string list \<Rightarrow> 'w tokenizer \<Rightarrow> 'w encoder \<Rightarrow> 'w \<Rightarrow> (exn + ndarray) \<times> 'w" where
  "get_model_embeddings_with batch_size texts tokenizer model w =
     (if batch_size = 0 then (Inl ValueError, w)
      else
        case embed_batches (py_range 0 (length texts) batch_size) batch_size texts
               tokenizer model [] w of
          (Inl e, w') \<Rightarrow> (Inl e, w')
        | (Inr embeddings, w') \<Rightarrow> (np_array embeddings, w'))"

definition get_model_embeddings ::
  "string list \<Rightarrow> 'w tokenizer \<Rightarrow> 'w encoder \<Rightarrow> 'w \<Rightarrow> (exn + ndarray) \<times> 'w" where
  "get_model_embeddings texts tokenizer model w =
     get_model_embeddings_with 8 texts tokenizer model w"

text \<open>
  Collaborators that neither read nor change the world: a tokenizer without state, an
  encoder in evaluation mode under \<^verbatim>\<open>torch.no_grad()\<close>.
\<close>

definition stateless_tokenizer ::
  "(string list \<Rightarrow> nat \<Rightarrow> exn + batch_encoding) \<Rightarrow> 'w tokenizer" where
  "stateless_tokenizer tok batch_texts n w = (tok batch_texts n, w)"

definition stateless_encoder :: "(batch_encoding \<Rightarrow> exn + tensor3) \<Rightarrow> 'w encoder" where
  "stateless_encoder enc inputs w = (enc inputs, w)"

text \<open>What one batch yields with such collaborators: tokenize, then encode.\<close>

definition encode ::
  "(string list \<Rightarrow> nat \<Rightarrow> exn + batch_encoding) \<Rightarrow> (batch_encoding \<Rightarrow> exn + tensor3)
     \<Rightarrow> string list \<Rightarrow> exn + tensor3" where
  "encode tok enc batch_texts =
     (case tok batch_texts max_length of Inl e \<Rightarrow> Inl e | Inr inputs \<Rightarrow> enc inputs)"

text \<open>
  The interface the extractor relies on (the tokenizer pads and truncates every text to
  the maximal length, the encoder returns one hidden-state vector of one dimension D per
  position): a batch of b texts that is tokenized and encoded without a raise yields a
  tensor of shape (b, max_length, D).
\<close>

definition well_shaped ::
  "(string list \<Rightarrow> nat \<Rightarrow> exn + batch_encoding) \<Rightarrow> (batch_encoding \<Rightarrow> exn + tensor3) \<Rightarrow> nat \<Rightarrow> bool" where
  "well_shaped tok enc D =
     (\<forall>batch_texts h. encode tok enc batch_texts = Inr h \<longrightarrow>
        length h = length batch_texts \<and>
        list_all (\<lambda>s. length s = max_length \<and> list_all (\<lambda>v. length v = D) s) h)"

text \<open>
  The batches the loop hands to the tokenizer: \<^verbatim>\<open>texts[i:i+batch_size]\<close> for every i
  of \<^verbatim>\<open>range(0, len(texts), batch_size)\<close>.
\<close>

definition batches :: "nat \<Rightarrow> 'a list \<Rightarrow> 'a list list" where
  "batches batch_size texts =
     map (\<lambda>i. slice texts i (i + batch_size)) (py_range 0 (length texts) batch_size)"

text \<open>
  Collaborators that treat the texts of a batch independently of each other: encoding a
  non-empty batch is encoding each text on its own by one function f, in order, and the
  first text on which f raises decides the exception. (The extractor never sends an
  empty batch.)
\<close>

fun mapM :: "('a \<Rightarrow> exn + 'b) \<Rightarrow> 'a list \<Rightarrow> exn + 'b list" where
  "mapM f [] = Inr []"
| "mapM f (x # xs) =
     (case f x of
        Inl e \<Rightarrow> Inl e
      | Inr y \<Rightarrow> (case mapM f xs of Inl e \<Rightarrow> Inl e | Inr ys \<Rightarrow> Inr (y # ys)))"

definition row_wise ::
  "(string list \<Rightarrow> nat \<Rightarrow> exn + batch_encoding) \<Rightarrow> (batch_encoding \<Rightarrow> exn + tensor3)
     \<Rightarrow> (string \<Rightarrow> exn + vec list) \<Rightarrow> bool" where
  "row_wise tok enc f =
     (\<forall>batch_texts. batch_texts \<noteq> [] \<longrightarrow> encode tok enc batch_texts = mapM f batch_texts)"

section \<open>A small tokenizer and encoder to run the extractor on\<close>

text \<open>
  Every character is one token (its code plus one; 0 is the padding token), texts are
  truncated and padded to n tokens, and the attention mask is 1 on the real tokens. The
  encoder's hidden state has one dimension: the token id.
\<close>

definition toy_ids :: "nat \<Rightarrow> string \<Rightarrow> nat list" where
  "toy_ids n t = take n (map (\<lambda>c. Suc (of_char c)) t) @ replicate (n - length t) 0"

definition toy_mask :: "nat \<Rightarrow> string \<Rightarrow> nat list" where
  "toy_mask n t = replicate (min n (length t)) 1 @ replicate (n - length t) 0"

definition toy_tokenizer :: "string list \<Rightarrow> nat \<Rightarrow> exn + batch_encoding" where
  "toy_tokenizer batch_texts n =
     Inr \<lparr>input_ids = map (toy_ids n) batch_texts, attention_mask = map (toy_mask n) batch_texts\<rparr>"

definition toy_encoder :: "batch_encoding \<Rightarrow> exn + tensor3" where
  "toy_encoder inputs = Inr (map (\<lambda>ids. map (\<lambda>t. [real t]) ids) (input_ids inputs))"

definition toy_hidden :: "string \<Rightarrow> exn + vec list" where
  "toy_hidden t = Inr (map (\<lambda>t. [real t]) (toy_ids max_length t))"

section \<open>Attention-masked pooling, as the specification words it\<close>

text \<open>
  The specification asks for mean pooling over the non-padding positions only, using the
  attention mask the tokenizer returns: the hidden states at the positions whose mask is 1
  are summed and divided by the number of such positions.
\<close>

definition spec_masked_mean_pool :: "vec list \<Rightarrow> nat list \<Rightarrow> vec" where
  "spec_masked_mean_pool s attn =
     map (\<lambda>k. (\<Sum>(v, m)\<leftarrow>zip s attn. real m * v ! k) / real (sum_list attn)) [0..<hidden_size s]"

definition spec_masked_embeddings ::
  "(string list \<Rightarrow> nat \<Rightarrow> exn + batch_encoding) \<Rightarrow> (batch_encoding \<Rightarrow> exn + tensor3)
     \<Rightarrow> string list \<Rightarrow> exn + vec list" where
  "spec_masked_embeddings tok enc batch_texts =
     (case tok batch_texts max_length of
        Inl e \<Rightarrow> Inl e
      | Inr inputs \<Rightarrow>
          (case enc inputs of
             Inl e \<Rightarrow> Inl e
           | Inr h \<Rightarrow> Inr (map (\<lambda>(s, m). spec_masked_mean_pool s m) (zip h (attention_mask inputs)))))"

text \<open>An encoder that runs out of memory on batches of more than four texts.\<close>

definition small_memory_encoder :: "batch_encoding \<Rightarrow> exn + tensor3" where
  "small_memory_encoder inputs =
     (if 4 < length (input_ids inputs) then Inl OutOfMemoryError else toy_encoder inputs)"

section \<open>Recording the calls of the collaborators\<close>

text \<open>
  To speak about how often and on what the extractor calls its collaborators, any
  tokenizer and encoder can be wrapped so that each call is appended to a log kept
  beside the world.
\<close>

record call_log =
  tokenizer_calls :: "string list list"
  encoder_calls :: "batch_encoding list"

definition no_calls :: call_log where
  "no_calls = \<lparr>tokenizer_calls = [], encoder_calls = []\<rparr>"

definition logged_tokenizer :: "'w tokenizer \<Rightarrow> ('w \<times> call_log) tokenizer" where
  "logged_tokenizer tokenizer batch_texts n =
     (\<lambda>(w, cl). case tokenizer batch_texts n w of
        (r, w') \<Rightarrow> (r, (w', cl\<lparr>tokenizer_calls := tokenizer_calls cl @ [batch_texts]\<rparr>)))"

definition logged_encoder :: "'w encoder \<Rightarrow> ('w \<times> call_log) encoder" where
  "logged_encoder model inputs =
     (\<lambda>(w, cl). case model inputs w of
        (r, w') \<Rightarrow> (r, (w', cl\<lparr>encoder_calls := encoder_calls cl @ [inputs]\<rparr>)))"

section \<open>The trace of a run\<close>

text \<open>
  A finer record than the call log: every call of a collaborator with what it was given
  and what it returned or raised, in the order of the calls. \<open>raised\<close> is the
  exception a call ended with, \<open>tokenized\<close> the batches the tokenizer was called on.
\<close>

datatype event =
  Tokenizer_call "string list" "exn + batch_encoding"
| Encoder_call batch_encoding "exn + tensor3"


fun tokenized :: "event list \<Rightarrow> string list list" where
  "tokenized [] = []"
| "tokenized (Tokenizer_call batch_texts r # evs) = batch_texts # tokenized evs"
| "tokenized (Encoder_call inputs r # evs) = tokenized evs"





section \<open>Loading the data and handing it to the split (notebook steps 5, 7 and 8)\<close>

text \<open>
  A dataset is a table of examples with a text and a label column;
  \<^verbatim>\<open>load_dataset("imdb", split=f"train[a:b]")\<close> is the slice of the train split from
  row a up to row b.
\<close>

record example =
  ex_text :: string
  ex_label :: nat

definition load_dataset :: "example list \<Rightarrow> nat \<Rightarrow> nat \<Rightarrow> example list" where
  "load_dataset train a b = slice train a b"

text \<open>
  The cells run top to bottom. Step 5 binds \<^verbatim>\<open>texts\<close> and \<^verbatim>\<open>labels\<close> to the
  first \<^verbatim>\<open>num_samples\<close> rows, step 7 binds \<^verbatim>\<open>embeddings\<close> to the extractor's
  result on \<^verbatim>\<open>texts\<close>, and step 8 rebinds \<^verbatim>\<open>texts\<close> and \<^verbatim>\<open>labels\<close> to a
  balanced sample and calls \<^verbatim>\<open>train_test_split(embeddings, labels, ...)\<close>. The
  function returns the two arrays that call receives; \<^verbatim>\<open>train_test_split\<close> applies
  one choice of row indices to both, so row i of the first stays paired with entry i of
  the second.
\<close>

definition step5 :: "example list \<Rightarrow> string list \<times> nat list" where
  "step5 train =
     (let dataset = load_dataset train 0 num_samples
      in (map ex_text dataset, map ex_label dataset))"

definition step8 :: "example list \<Rightarrow> string list \<times> nat list" where
  "step8 train =
     (let pos_examples = load_dataset train 0 (num_samples div 2);
          neg_examples = load_dataset train 12500 (12500 + num_samples div 2)
      in (map ex_text pos_examples @ map ex_text neg_examples,
          map ex_label pos_examples @ map ex_label neg_examples))"

definition train_test_split_arguments ::
  "example list \<Rightarrow> 'w tokenizer \<Rightarrow> 'w encoder \<Rightarrow> 'w \<Rightarrow> exn + ndarray \<times> nat list" where
  "train_test_split_arguments train tokenizer teacher_model w =
     (case step5 train of
        (texts, labels) \<Rightarrow>
          (case get_model_embeddings texts tokenizer teacher_model w of
             (Inl e, w') \<Rightarrow> Inl e
           | (Inr embeddings, w') \<Rightarrow>
               (case step8 train of
                  (texts, labels) \<Rightarrow> Inr (embeddings, labels))))"

text \<open>
  A train split laid out as IMDB's: 25000 reviews, the first 12500 with label 0 and the
  rest with label 1. Review i is a text of i + 1 letters, so all reviews differ.
\<close>

definition imdb_like :: "example list" where
  "imdb_like =
     map (\<lambda>i. \<lparr>ex_text = replicate (Suc i) CHR ''x'', ex_label = (if i < 12500 then 0 else 1)\<rparr>)
       [0..<25000]"

section \<open>Training the students and saving the best (notebook steps 9 to 11)\<close>

text \<open>
  A dictionary is an association list in insertion order; assigning to a key replaces its
  value in place or appends the key. The classifiers are scikit-learn's: \<^verbatim>\<open>fit\<close>,
  \<^verbatim>\<open>predict\<close>, \<^verbatim>\<open>accuracy_score\<close> and \<^verbatim>\<open>classification_report\<close> are
  parameters, and each may raise (the report, for one, on a test set with a single
  class). \<^verbatim>\<open>fit\<close> changes the classifier object in place, so after the loop the
  dictionary \<^verbatim>\<open>models\<close> holds the fitted classifiers; the accuracies are real numbers.
  The loop body in the notebook's order: fit, predict, \<^verbatim>\<open>accuracy_score\<close>,
  \<^verbatim>\<open>results[name] = accuracy\<close>, and the printed \<^verbatim>\<open>classification_report\<close>. The
  training times and the dictionary \<^verbatim>\<open>all_predictions\<close> are written and never read
  in steps 9 to 11.
\<close>

fun train_students ::
  "('c \<Rightarrow> vec list \<Rightarrow> nat list \<Rightarrow> exn + 'c) \<Rightarrow> ('c \<Rightarrow> vec list \<Rightarrow> exn + nat list)
     \<Rightarrow> (nat list \<Rightarrow> nat list \<Rightarrow> exn + real) \<Rightarrow> (nat list \<Rightarrow> nat list \<Rightarrow> exn + string)
     \<Rightarrow> (string \<times> 'c) list \<Rightarrow> vec list \<Rightarrow> nat list \<Rightarrow> vec list \<Rightarrow> nat list
     \<Rightarrow> (string \<times> 'c) list \<Rightarrow> (string \<times> real) list
     \<Rightarrow> exn + (string \<times> 'c) list \<times> (string \<times> real) list" where
  "train_students fit predict accuracy_score classification_report [] X_train y_train X_test y_test
     models results = Inr (models, results)"
| "train_students fit predict accuracy_score classification_report ((name, model) # items)
     X_train y_train X_test y_test models results =
     (case fit model X_train y_train of
        Inl e \<Rightarrow> Inl e
      | Inr fitted \<Rightarrow>
          (case predict fitted X_test of
             Inl e \<Rightarrow> Inl e
           | Inr y_pred \<Rightarrow>
               (case accuracy_score y_test y_pred of
                  Inl e \<Rightarrow> Inl e
                | Inr accuracy \<Rightarrow>
                    (case classification_report y_test y_pred of
                       Inl e \<Rightarrow> Inl e
                     | Inr report \<Rightarrow>
                         train_students fit predict accuracy_score classification_report items
                           X_train y_train X_test y_test
                           (AList.update name fitted models)
                           (AList.update name accuracy results)))))"

text \<open>
  \<^verbatim>\<open>max(iterable, key=f)\<close>: the first element whose key no later element exceeds;
  ValueError on an empty iterable.
\<close>

fun max_from :: "('a \<Rightarrow> 'k::linorder) \<Rightarrow> 'a \<Rightarrow> 'a list \<Rightarrow> 'a" where
  "max_from key best [] = best"
| "max_from key best (x # xs) = max_from key (if key best < key x then x else best) xs"

definition py_max :: "('a \<Rightarrow> 'k::linorder) \<Rightarrow> 'a list \<Rightarrow> exn + 'a" where
  "py_max key xs = (case xs of [] \<Rightarrow> Inl ValueError | x # rest \<Rightarrow> Inr (max_from key x rest))"

text \<open>The dictionary of step 9, with the three classifier objects as parameters.\<close>

definition students :: "'c \<Rightarrow> 'c \<Rightarrow> 'c \<Rightarrow> (string \<times> 'c) list" where
  "students lr rf mlp =
     [(''Logistic Regression'', lr), (''Random Forest'', rf), (''MLP (Neural Network)'', mlp)]"

record 'c saved =
  best_model_name :: string
  results :: "(string \<times> real) list"
  models :: "(string \<times> 'c) list"
  files :: "string \<rightharpoonup> 'c"

text \<open>
  Steps 9 to 11 in order: the loop over \<^verbatim>\<open>models.items()\<close>,
  \<^verbatim>\<open>max(results, key=results.get)\<close>, \<^verbatim>\<open>models[best_model_name]\<close> and
  \<^verbatim>\<open>joblib.dump(best_model, 'distilled_model.joblib')\<close>, which writes the object to
  the file of that name. (The plots of step 10 draw \<^verbatim>\<open>results\<close> and
  \<^verbatim>\<open>train_times\<close> and bind nothing.)
\<close>

definition train_select_save ::
  "('c \<Rightarrow> vec list \<Rightarrow> nat list \<Rightarrow> exn + 'c) \<Rightarrow> ('c \<Rightarrow> vec list \<Rightarrow> exn + nat list)
     \<Rightarrow> (nat list \<Rightarrow> nat list \<Rightarrow> exn + real) \<Rightarrow> (nat list \<Rightarrow> nat list \<Rightarrow> exn + string)
     \<Rightarrow> (string \<times> 'c) list \<Rightarrow> vec list \<Rightarrow> nat list \<Rightarrow> vec list \<Rightarrow> nat list
     \<Rightarrow> (string \<rightharpoonup> 'c) \<Rightarrow> exn + 'c saved" where
  "train_select_save fit predict accuracy_score classification_report models0
     X_train y_train X_test y_test fs =
     (case train_students fit predict accuracy_score classification_report models0
             X_train y_train X_test y_test models0 [] of
        Inl e \<Rightarrow> Inl e
      | Inr (trained, accuracies) \<Rightarrow>
          (case py_max (map_of accuracies) (map fst accuracies) of
             Inl e \<Rightarrow> Inl e
           | Inr name \<Rightarrow>
               (case map_of trained name of
                  None \<Rightarrow> Inl KeyError
                | Some best_model \<Rightarrow>
                    Inr \<lparr>best_model_name = name, results = accuracies, models = trained,
                         files = fs(''distilled_model.joblib'' \<mapsto> best_model)\<rparr>)))"

text \<open>
  Three constant classifiers to run the steps on. A classifier is the label it always
  predicts and a flag that says whether it has been fitted; predicting with an unfitted
  one raises, the accuracy is the share of labels hit, and the report raises unless the
  true and predicted labels together show exactly the two classes.
\<close>

definition toy_fit :: "nat \<times> bool \<Rightarrow> vec list \<Rightarrow> nat list \<Rightarrow> exn + nat \<times> bool" where
  "toy_fit c X y = Inr (fst c, True)"

definition toy_predict :: "nat \<times> bool \<Rightarrow> vec list \<Rightarrow> exn + nat list" where
  "toy_predict c X = (if snd c then Inr (replicate (length X) (fst c)) else Inl RuntimeError)"

definition toy_accuracy_score :: "nat list \<Rightarrow> nat list \<Rightarrow> exn + real" where
  "toy_accuracy_score y_true y_pred =
     (if length y_true \<noteq> length y_pred then Inl ValueError
      else Inr (real (length (filter (\<lambda>(t, p). t = p) (zip y_true y_pred))) / real (length y_true)))"

definition toy_classification_report :: "nat list \<Rightarrow> nat list \<Rightarrow> exn + string" where
  "toy_classification_report y_true y_pred =
     (if length (remdups (y_true @ y_pred)) = 2 then Inr ''report'' else Inl ValueError)"

section \<open>Properties of the extractor\<close>

declare embed_batches.simps(2) [simp del]

lemma length_mean_dim1 [simp]: "length (mean_dim1 t) = length t"
  by (simp add: mean_dim1_def)

lemma mean_dim1_append: "mean_dim1 (s @ t) = mean_dim1 s @ mean_dim1 t"
  by (simp add: mean_dim1_def)

lemma mean_dim1_nth:
  "r < length t \<Longrightarrow> mean_dim1 t ! r =
     map (\<lambda>k. (\<Sum>v\<leftarrow>t ! r. v ! k) / real (length (t ! r))) [0..<hidden_size (t ! r)]"
  by (simp add: mean_dim1_def)

lemma hidden_size_shaped:
  "length s = max_length \<Longrightarrow> list_all (\<lambda>v. length v = D) s \<Longrightarrow> hidden_size s = D"
  by (cases s) (simp_all add: hidden_size_def max_length_def)

lemma mean_dim1_shaped:
  assumes "list_all (\<lambda>s. length s = max_length \<and> list_all (\<lambda>v. length v = D) s) h"
  shows "list_all (\<lambda>r. length r = D) (mean_dim1 h)"
  using assms by (auto simp: mean_dim1_def list_all_iff hidden_size_shaped)

lemma stateless_step:
  "embed_batches (i # idxs) B texts (stateless_tokenizer tok) (stateless_encoder enc) acc w =
     (case encode tok enc (slice texts i (i + B)) of
        Inl e \<Rightarrow> (Inl e, w)
      | Inr h \<Rightarrow> embed_batches idxs B texts (stateless_tokenizer tok) (stateless_encoder enc)
                   (acc @ mean_dim1 h) w)"
  by (simp add: embed_batches.simps(2) stateless_tokenizer_def stateless_encoder_def encode_def
      split: sum.splits)

lemma stateless_world:
  "embed_batches idxs B texts (stateless_tokenizer tok) (stateless_encoder enc) acc w = (r, w')
     \<Longrightarrow> w' = w"
proof (induction idxs arbitrary: acc)
  case Nil
  then show ?case by simp
next
  case (Cons i idxs)
  then show ?case
    by (auto simp: stateless_step split: sum.splits)
qed

lemma stateless_dims:
  assumes ws: "well_shaped tok enc D"
  shows "list_all (\<lambda>r. length r = D) acc \<Longrightarrow>
     embed_batches idxs B texts (stateless_tokenizer tok) (stateless_encoder enc) acc w = (Inr out, w')
     \<Longrightarrow> list_all (\<lambda>r. length r = D) out"
proof (induction idxs arbitrary: acc)
  case Nil
  then show ?case by simp
next
  case (Cons i idxs)
  from Cons.prems(2) obtain h where
    h: "encode tok enc (slice texts i (i + B)) = Inr h" and
    rest: "embed_batches idxs B texts (stateless_tokenizer tok) (stateless_encoder enc)
             (acc @ mean_dim1 h) w = (Inr out, w')"
    by (auto simp: stateless_step split: sum.splits)
  from ws h have "list_all (\<lambda>r. length r = D) (mean_dim1 h)"
    by (auto simp: well_shaped_def intro: mean_dim1_shaped)
  with Cons.prems(1) have "list_all (\<lambda>r. length r = D) (acc @ mean_dim1 h)"
    by simp
  from Cons.IH [OF this rest] show ?case .
qed

lemma length_slice: "length (slice xs i (i + B)) = min B (length xs - i)"
  by (simp add: slice_def)

lemma block_index:
  fixes B :: nat
  assumes "B dvd a" "a \<le> i" "i < a + B"
  shows "B * (i div B) = a" "i mod B = i - a"
proof -
  from assms(1) obtain k where k: "a = B * k" by (auto simp: dvd_def)
  from assms(2,3) have B: "0 < B" by simp
  have i: "i = (i - a) + k * B" using assms(2) k by (simp add: mult.commute)
  have lt: "i - a < B" using assms(2,3) by simp
  have "i div B = (i - a) div B + k"
    using B by (subst i) (simp only: div_mult_self1 [of B "i - a" k] div_mult_self2 div_mult_self3 div_mult_self4)
  with lt have d: "i div B = k" by simp
  from d k show "B * (i div B) = a" by simp
  have "i mod B = (i - a) mod B"
    by (subst i) simp
  with lt show "i mod B = i - a" by simp
qed

lemma stateless_rows:
  assumes ws: "well_shaped tok enc D"
  shows "0 < B \<Longrightarrow> B dvd a \<Longrightarrow> length acc = min a (length texts) \<Longrightarrow>
     embed_batches (py_range a (length texts) B) B texts
       (stateless_tokenizer tok) (stateless_encoder enc) acc w = (Inr out, w') \<Longrightarrow>
     length out = length texts \<and>
     (\<forall>i<min a (length texts). out ! i = acc ! i) \<and>
     (\<forall>i. a \<le> i \<and> i < length texts \<longrightarrow>
        (\<exists>h. encode tok enc (slice texts (B * (i div B)) (B * (i div B) + B)) = Inr h \<and>
             i mod B < length h \<and> out ! i = mean_dim1 h ! (i mod B)))"
proof (induction a "length texts" B arbitrary: acc rule: py_range.induct)
  case (1 start step)
  show ?case
  proof (cases "step = 0 \<or> length texts \<le> start")
    case True
    with "1.prems" show ?thesis
      by (auto simp: py_range.simps [of start])
  next
    case False
    then have pos: "0 < step" and lt: "start < length texts" by simp_all
    let ?N = "length texts"
    have range: "py_range start ?N step = start # py_range (start + step) ?N step"
      using False by (subst py_range.simps) simp
    from "1.prems"(4) obtain h where
      h: "encode tok enc (slice texts start (start + step)) = Inr h" and
      rest: "embed_batches (py_range (start + step) ?N step) step texts
               (stateless_tokenizer tok) (stateless_encoder enc) (acc @ mean_dim1 h) w = (Inr out, w')"
      by (auto simp: range stateless_step split: sum.splits)
    from ws h have lh: "length h = min step (?N - start)"
      by (simp add: well_shaped_def length_slice)
    have la: "length acc = start" using "1.prems"(3) lt by simp
    have len: "length (acc @ mean_dim1 h) = min (start + step) ?N"
      using la lh lt by simp
    have dvd: "step dvd start + step" using "1.prems"(2) by simp
    note IH = "1.hyps" [OF False pos dvd len rest]
    have old: "\<forall>i<min start ?N. out ! i = acc ! i"
    proof (intro allI impI)
      fix i assume "i < min start ?N"
      then have i: "i < start" by simp
      then have "i < min (start + step) ?N" using lt by simp
      with IH have "out ! i = (acc @ mean_dim1 h) ! i" by blast
      with i la show "out ! i = acc ! i" by (simp add: nth_append)
    qed
    have new: "\<forall>i. start \<le> i \<and> i < ?N \<longrightarrow>
        (\<exists>h. encode tok enc (slice texts (step * (i div step)) (step * (i div step) + step)) = Inr h \<and>
             i mod step < length h \<and> out ! i = mean_dim1 h ! (i mod step))"
    proof (intro allI impI)
      fix i assume i: "start \<le> i \<and> i < ?N"
      show "\<exists>h. encode tok enc (slice texts (step * (i div step)) (step * (i div step) + step)) = Inr h \<and>
             i mod step < length h \<and> out ! i = mean_dim1 h ! (i mod step)"
      proof (cases "i < start + step")
        case True
        with i have b: "step * (i div step) = start" "i mod step = i - start"
          using block_index [OF "1.prems"(2), of i] by simp_all
        from True i have "i < min (start + step) ?N" by simp
        with IH have "out ! i = (acc @ mean_dim1 h) ! i" by blast
        with i la have o: "out ! i = mean_dim1 h ! (i - start)" by (simp add: nth_append)
        have "i - start < length h" using lh i True by (auto simp: min_def)
        with h o b show ?thesis by simp
      next
        case False
        with i IH show ?thesis by simp
      qed
    qed
    from IH old new show ?thesis by blast
  qed
qed

lemma np_array_shaped:
  "list_all (\<lambda>r. length r = D) embs \<Longrightarrow>
   np_array embs = Inr \<lparr>shape = (if embs = [] then [0] else [length embs, D]), rows = embs\<rparr>"
  by (cases embs) (auto simp: np_array_def)

lemma run_rows:
  assumes ws: "well_shaped tok enc D" and B: "0 < B"
    and run: "get_model_embeddings_with B texts (stateless_tokenizer tok) (stateless_encoder enc) w
              = (Inr arr, w')"
  shows "w' = w"
    and "length (rows arr) = length texts"
    and "shape arr = (if texts = [] then [0] else [length texts, D])"
    and "i < length texts \<Longrightarrow>
           \<exists>h. encode tok enc (slice texts (B * (i div B)) (B * (i div B) + B)) = Inr h \<and>
               i mod B < length h \<and>
               length (h ! (i mod B)) = max_length \<and>
               list_all (\<lambda>v. length v = D) (h ! (i mod B)) \<and>
               rows arr ! i = mean_dim1 h ! (i mod B)"
proof -
  from run B obtain out where
    loop: "embed_batches (py_range 0 (length texts) B) B texts
             (stateless_tokenizer tok) (stateless_encoder enc) [] w = (Inr out, w')" and
    arr: "np_array out = Inr arr"
    by (auto simp: get_model_embeddings_with_def split: prod.splits sum.splits)
  from loop show "w' = w" by (rule stateless_world)
  have dims: "list_all (\<lambda>r. length r = D) out"
    using stateless_dims [OF ws _ loop] by simp
  have R: "length out = length texts \<and>
     (\<forall>i. 0 \<le> i \<and> i < length texts \<longrightarrow>
        (\<exists>h. encode tok enc (slice texts (B * (i div B)) (B * (i div B) + B)) = Inr h \<and>
             i mod B < length h \<and> out ! i = mean_dim1 h ! (i mod B)))"
    using stateless_rows [OF ws B _ _ loop] by simp
  from arr dims have a: "arr = \<lparr>shape = (if out = [] then [0] else [length out, D]), rows = out\<rparr>"
    by (simp add: np_array_shaped)
  from R a show "length (rows arr) = length texts" by simp
  from R a show "shape arr = (if texts = [] then [0] else [length texts, D])" by auto
  show "\<exists>h. encode tok enc (slice texts (B * (i div B)) (B * (i div B) + B)) = Inr h \<and>
               i mod B < length h \<and>
               length (h ! (i mod B)) = max_length \<and>
               list_all (\<lambda>v. length v = D) (h ! (i mod B)) \<and>
               rows arr ! i = mean_dim1 h ! (i mod B)" if i: "i < length texts"
  proof -
    from R i obtain h where
      h: "encode tok enc (slice texts (B * (i div B)) (B * (i div B) + B)) = Inr h" and
      r: "i mod B < length h" and o: "out ! i = mean_dim1 h ! (i mod B)"
      by blast
    from ws h have "list_all (\<lambda>s. length s = max_length \<and> list_all (\<lambda>v. length v = D) s) h"
      by (simp add: well_shaped_def)
    with r have "length (h ! (i mod B)) = max_length \<and> list_all (\<lambda>v. length v = D) (h ! (i mod B))"
      by (simp add: list_all_length)
    with h r o a show ?thesis by auto
  qed
qed

lemma run_success:
  assumes ws: "well_shaped tok enc D" and B: "0 < B"
    and loop: "embed_batches (py_range 0 (length texts) B) B texts
             (stateless_tokenizer tok) (stateless_encoder enc) [] w = (Inr out, w')"
  shows "\<exists>arr. get_model_embeddings_with B texts (stateless_tokenizer tok) (stateless_encoder enc) w
              = (Inr arr, w')"
proof -
  have "list_all (\<lambda>r. length r = D) out"
    using stateless_dims [OF ws _ loop] by simp
  then show ?thesis
    using B loop by (simp add: get_model_embeddings_with_def np_array_shaped)
qed

section \<open>When the extractor raises and when it returns\<close>

lemma stateless_failure:
  "fst (embed_batches idxs B texts (stateless_tokenizer tok) (stateless_encoder enc) acc w) = Inl e
   \<longleftrightarrow> (\<exists>n<length idxs.
          encode tok enc (slice texts (idxs ! n) (idxs ! n + B)) = Inl e \<and>
          (\<forall>m<n. \<exists>h. encode tok enc (slice texts (idxs ! m) (idxs ! m + B)) = Inr h))"
proof (induction idxs arbitrary: acc)
  case Nil
  then show ?case by simp
next
  case (Cons i idxs)
  show ?case
  proof (cases "encode tok enc (slice texts i (i + B))")
    case (Inl e')
    have "(\<exists>n<length (i # idxs).
          encode tok enc (slice texts ((i # idxs) ! n) ((i # idxs) ! n + B)) = Inl e \<and>
          (\<forall>m<n. \<exists>h. encode tok enc (slice texts ((i # idxs) ! m) ((i # idxs) ! m + B)) = Inr h))
       \<longleftrightarrow> e' = e"
    proof
      assume "\<exists>n<length (i # idxs).
          encode tok enc (slice texts ((i # idxs) ! n) ((i # idxs) ! n + B)) = Inl e \<and>
          (\<forall>m<n. \<exists>h. encode tok enc (slice texts ((i # idxs) ! m) ((i # idxs) ! m + B)) = Inr h)"
      then obtain n where n: "encode tok enc (slice texts ((i # idxs) ! n) ((i # idxs) ! n + B)) = Inl e"
        "\<forall>m<n. \<exists>h. encode tok enc (slice texts ((i # idxs) ! m) ((i # idxs) ! m + B)) = Inr h"
        by blast
      show "e' = e"
      proof (cases n)
        case 0
        with n(1) Inl show ?thesis by simp
      next
        case (Suc n')
        with n(2) have "\<exists>h. encode tok enc (slice texts ((i # idxs) ! 0) ((i # idxs) ! 0 + B)) = Inr h"
          by blast
        with Inl show ?thesis by simp
      qed
    next
      assume "e' = e"
      with Inl show "\<exists>n<length (i # idxs).
          encode tok enc (slice texts ((i # idxs) ! n) ((i # idxs) ! n + B)) = Inl e \<and>
          (\<forall>m<n. \<exists>h. encode tok enc (slice texts ((i # idxs) ! m) ((i # idxs) ! m + B)) = Inr h)"
        by (intro exI [of _ 0]) simp
    qed
    with Inl show ?thesis by (simp add: stateless_step)
  next
    case (Inr h)
    have "(\<exists>n<length (i # idxs).
          encode tok enc (slice texts ((i # idxs) ! n) ((i # idxs) ! n + B)) = Inl e \<and>
          (\<forall>m<n. \<exists>h. encode tok enc (slice texts ((i # idxs) ! m) ((i # idxs) ! m + B)) = Inr h))
       \<longleftrightarrow> (\<exists>n<length idxs.
          encode tok enc (slice texts (idxs ! n) (idxs ! n + B)) = Inl e \<and>
          (\<forall>m<n. \<exists>h. encode tok enc (slice texts (idxs ! m) (idxs ! m + B)) = Inr h))"
      (is "?L \<longleftrightarrow> ?R")
    proof
      assume ?L
      then obtain n where n: "n < length (i # idxs)"
        "encode tok enc (slice texts ((i # idxs) ! n) ((i # idxs) ! n + B)) = Inl e"
        "\<forall>m<n. \<exists>h. encode tok enc (slice texts ((i # idxs) ! m) ((i # idxs) ! m + B)) = Inr h"
        by blast
      from n(2) Inr obtain n' where n': "n = Suc n'" by (cases n) simp_all
      have "\<forall>m<n'. \<exists>h. encode tok enc (slice texts (idxs ! m) (idxs ! m + B)) = Inr h"
      proof (intro allI impI)
        fix m assume "m < n'"
        then have "Suc m < n" using n' by simp
        with n(3) have "\<exists>h. encode tok enc (slice texts ((i # idxs) ! Suc m) ((i # idxs) ! Suc m + B)) = Inr h"
          by blast
        then show "\<exists>h. encode tok enc (slice texts (idxs ! m) (idxs ! m + B)) = Inr h" by simp
      qed
      with n(1,2) n' show ?R by (intro exI [of _ n']) simp
    next
      assume ?R
      then obtain n where n: "n < length idxs"
        "encode tok enc (slice texts (idxs ! n) (idxs ! n + B)) = Inl e"
        "\<forall>m<n. \<exists>h. encode tok enc (slice texts (idxs ! m) (idxs ! m + B)) = Inr h"
        by blast
      have "\<forall>m<Suc n. \<exists>h. encode tok enc (slice texts ((i # idxs) ! m) ((i # idxs) ! m + B)) = Inr h"
      proof (intro allI impI)
        fix m assume m: "m < Suc n"
        show "\<exists>h. encode tok enc (slice texts ((i # idxs) ! m) ((i # idxs) ! m + B)) = Inr h"
        proof (cases m)
          case 0
          with Inr show ?thesis by simp
        next
          case (Suc m')
          with m n(3) show ?thesis by simp
        qed
      qed
      with n(1,2) show ?L by (intro exI [of _ "Suc n"]) simp
    qed
    with Inr Cons.IH [of "acc @ mean_dim1 h"] show ?thesis by (simp add: stateless_step)
  qed
qed

lemma stateless_errors:
  assumes ws: "well_shaped tok enc D"
  shows "(fst (get_model_embeddings texts (stateless_tokenizer tok) (stateless_encoder enc) w) = Inl e
          \<longleftrightarrow> (\<exists>n<length (batches 8 texts).
                 encode tok enc (batches 8 texts ! n) = Inl e \<and>
                 (\<forall>m<n. \<exists>h. encode tok enc (batches 8 texts ! m) = Inr h))) \<and>
         snd (get_model_embeddings texts (stateless_tokenizer tok) (stateless_encoder enc) w) = w"
proof -
  let ?loop = "embed_batches (py_range 0 (length texts) 8) 8 texts
                 (stateless_tokenizer tok) (stateless_encoder enc) [] w"
  obtain r w' where loop: "?loop = (r, w')" by (cases ?loop)
  then have w': "w' = w" by (rule stateless_world)
  have fail: "fst ?loop = Inl e \<longleftrightarrow> (\<exists>n<length (batches 8 texts).
                 encode tok enc (batches 8 texts ! n) = Inl e \<and>
                 (\<forall>m<n. \<exists>h. encode tok enc (batches 8 texts ! m) = Inr h))"
    unfolding stateless_failure by (auto simp: batches_def)
  show ?thesis
  proof (cases r)
    case (Inl e')
    with loop fail w' show ?thesis
      by (simp add: get_model_embeddings_def get_model_embeddings_with_def)
  next
    case (Inr out)
    with loop w' run_success [OF ws _ loop [unfolded Inr]] obtain arr where
      "get_model_embeddings texts (stateless_tokenizer tok) (stateless_encoder enc) w = (Inr arr, w)"
      by (auto simp: get_model_embeddings_def)
    with loop Inr fail show ?thesis by simp
  qed
qed

section \<open>The extractor on the small tokenizer and encoder\<close>

lemma toy_encode:
  "encode toy_tokenizer toy_encoder batch_texts =
     Inr (map (\<lambda>t. map (\<lambda>t. [real t]) (toy_ids max_length t)) batch_texts)"
  by (simp add: encode_def toy_tokenizer_def toy_encoder_def)

lemma toy_well_shaped: "well_shaped toy_tokenizer toy_encoder 1"
  by (auto simp: well_shaped_def toy_encode toy_ids_def list_all_iff)

lemma toy_row_wise: "row_wise toy_tokenizer toy_encoder toy_hidden"
proof -
  have "mapM toy_hidden ts = Inr (map (\<lambda>t. map (\<lambda>t. [real t]) (toy_ids max_length t)) ts)" for ts
    by (induction ts) (simp_all add: toy_hidden_def)
  then show ?thesis
    by (simp add: row_wise_def toy_encode)
qed

lemma py_range_single: "0 < n \<Longrightarrow> n \<le> B \<Longrightarrow> py_range 0 n B = [0]"
  by (simp add: py_range.simps [of 0] py_range.simps [of B])

lemma py_range_pair: "0 < B \<Longrightarrow> B < n \<Longrightarrow> n \<le> B + B \<Longrightarrow> py_range 0 n B = [0, B]"
  by (simp add: py_range.simps [of 0] py_range.simps [of B] py_range.simps [of "B + B"])

lemma small_memory_well_shaped: "well_shaped toy_tokenizer small_memory_encoder 1"
  using toy_well_shaped
  by (auto simp: well_shaped_def encode_def small_memory_encoder_def toy_tokenizer_def
      split: if_splits)

lemma run_returns:
  assumes ws: "well_shaped tok enc D"
    and ok: "\<forall>k<length (batches 8 texts). \<exists>h. encode tok enc (batches 8 texts ! k) = Inr h"
  shows "\<exists>arr. get_model_embeddings texts (stateless_tokenizer tok) (stateless_encoder enc) w
              = (Inr arr, w)"
proof -
  let ?run = "get_model_embeddings texts (stateless_tokenizer tok) (stateless_encoder enc) w"
  note se = stateless_errors [OF ws, of texts w]
  have "fst ?run \<noteq> Inl e" for e
  proof
    assume "fst ?run = Inl e"
    with se [of e] obtain n where "n < length (batches 8 texts)"
      "encode tok enc (batches 8 texts ! n) = Inl e"
      by blast
    with ok show False by fastforce
  qed
  then obtain arr where "fst ?run = Inr arr" by (cases "fst ?run") auto
  moreover from se have "snd ?run = w" by blast
  ultimately have "?run = (Inr arr, w)" by (simp add: prod_eq_iff)
  then show ?thesis by blast
qed

lemma toy_never_raises:
  "\<forall>k<length (batches 8 texts). \<exists>h. encode toy_tokenizer toy_encoder (batches 8 texts ! k) = Inr h"
  by (simp add: toy_encode)

section \<open>Row count and row order\<close>

text \<open>
  C1. For every sequence of N texts on which no batch raises, \<open>get_model_embeddings\<close>
  returns an array with exactly N rows (of shape (N, D) when N is positive), and row i is
  the pooled hidden state of text i: text i stands at position \<open>i mod 8\<close> of batch
  \<open>i div 8\<close>, and row i is the mean over the sequence axis of that batch's hidden
  states at that position. No row is dropped or moved.
\<close>

theorem get_model_embeddings_rows:
  assumes ws: "well_shaped tok enc D"
    and ok: "\<forall>k<length (batches 8 texts). \<exists>h. encode tok enc (batches 8 texts ! k) = Inr h"
  shows "\<exists>arr.
           get_model_embeddings texts (stateless_tokenizer tok) (stateless_encoder enc) w
             = (Inr arr, w) \<and>
           length (rows arr) = length texts \<and>
           shape arr = (if texts = [] then [0] else [length texts, D]) \<and>
           (\<forall>i<length texts.
              \<exists>h. encode tok enc (slice texts (8 * (i div 8)) (8 * (i div 8) + 8)) = Inr h \<and>
                  i mod 8 < length h \<and>
                  slice texts (8 * (i div 8)) (8 * (i div 8) + 8) ! (i mod 8) = texts ! i \<and>
                  rows arr ! i = mean_dim1 h ! (i mod 8))"
proof -
  from run_returns [OF ws ok, of w] obtain arr where
    run: "get_model_embeddings texts (stateless_tokenizer tok) (stateless_encoder enc) w
            = (Inr arr, w)"
    by blast
  then have run': "get_model_embeddings_with 8 texts (stateless_tokenizer tok)
      (stateless_encoder enc) w = (Inr arr, w)"
    by (simp add: get_model_embeddings_def)
  have pos: "slice texts (8 * (i div 8)) (8 * (i div 8) + 8) ! (i mod 8) = texts ! i"
    if "i < length texts" for i
    using that by (simp add: slice_def)
  have row: "\<exists>h. encode tok enc (slice texts (8 * (i div 8)) (8 * (i div 8) + 8)) = Inr h \<and>
                i mod 8 < length h \<and>
                slice texts (8 * (i div 8)) (8 * (i div 8) + 8) ! (i mod 8) = texts ! i \<and>
                rows arr ! i = mean_dim1 h ! (i mod 8)"
    if i: "i < length texts" for i
    using run_rows(4) [OF ws _ run' i] pos [OF i] by auto
  from run_rows(2,3) [OF ws _ run'] have
    len: "length (rows arr) = length texts" and
    sh: "shape arr = (if texts = [] then [0] else [length texts, D])"
    by simp_all
  show ?thesis
  proof (intro exI [of _ arr] conjI)
    show "get_model_embeddings texts (stateless_tokenizer tok) (stateless_encoder enc) w
            = (Inr arr, w)"
      by (fact run)
    show "length (rows arr) = length texts" by (fact len)
    show "shape arr = (if texts = [] then [0] else [length texts, D])" by (fact sh)
    show "\<forall>i<length texts.
              \<exists>h. encode tok enc (slice texts (8 * (i div 8)) (8 * (i div 8) + 8)) = Inr h \<and>
                  i mod 8 < length h \<and>
                  slice texts (8 * (i div 8)) (8 * (i div 8) + 8) ! (i mod 8) = texts ! i \<and>
                  rows arr ! i = mean_dim1 h ! (i mod 8)"
      by (intro allI impI) (rule row)
  qed
qed

theorem get_model_embeddings_rows_witness:
  "\<exists>arr.
     get_model_embeddings [''ab'', ''c''] (stateless_tokenizer toy_tokenizer)
       (stateless_encoder toy_encoder) () = (Inr arr, ()) \<and>
     length (rows arr) = 2 \<and>
     shape arr = [2, 1] \<and>
     (\<exists>h. encode toy_tokenizer toy_encoder (slice [''ab'', ''c''] 0 8) = Inr h \<and>
          slice [''ab'', ''c''] 0 8 ! 1 = ''c'' \<and>
          rows arr ! 1 = mean_dim1 h ! 1)"
proof -
  from get_model_embeddings_rows [OF toy_well_shaped toy_never_raises, of "[''ab'', ''c'']" "()"]
  obtain arr where
    run: "get_model_embeddings [''ab'', ''c''] (stateless_tokenizer toy_tokenizer)
       (stateless_encoder toy_encoder) () = (Inr arr, ())" and
    len: "length (rows arr) = length [''ab'', ''c'']" and
    sh: "shape arr = (if [''ab'', ''c''] = [] then [0] else [length [''ab'', ''c''], 1])" and
    all: "\<forall>i<length [''ab'', ''c''].
              \<exists>h. encode toy_tokenizer toy_encoder
                     (slice [''ab'', ''c''] (8 * (i div 8)) (8 * (i div 8) + 8)) = Inr h \<and>
                  i mod 8 < length h \<and>
                  slice [''ab'', ''c''] (8 * (i div 8)) (8 * (i div 8) + 8) ! (i mod 8)
                    = [''ab'', ''c''] ! i \<and>
                  rows arr ! i = mean_dim1 h ! (i mod 8)"
    by blast
  from all have "1 < length [''ab'', ''c''] \<longrightarrow>
       (\<exists>h. encode toy_tokenizer toy_encoder (slice [''ab'', ''c''] (8 * (1 div 8)) (8 * (1 div 8) + 8))
          = Inr h \<and>
        1 mod 8 < length h \<and>
        slice [''ab'', ''c''] (8 * (1 div 8)) (8 * (1 div 8) + 8) ! (1 mod 8) = [''ab'', ''c''] ! 1 \<and>
        rows arr ! 1 = mean_dim1 h ! (1 mod 8))"
    by blast
  then have third: "\<exists>h. encode toy_tokenizer toy_encoder (slice [''ab'', ''c''] 0 8) = Inr h \<and>
        slice [''ab'', ''c''] 0 8 ! 1 = ''c'' \<and>
        rows arr ! 1 = mean_dim1 h ! 1"
    by auto
  show ?thesis
  proof (intro exI [of _ arr] conjI)
    show "get_model_embeddings [''ab'', ''c''] (stateless_tokenizer toy_tokenizer)
       (stateless_encoder toy_encoder) () = (Inr arr, ())"
      by (fact run)
    show "length (rows arr) = 2" using len by simp
    show "shape arr = [2, 1]" using sh by simp
    show "\<exists>h. encode toy_tokenizer toy_encoder (slice [''ab'', ''c''] 0 8) = Inr h \<and>
        slice [''ab'', ''c''] 0 8 ! 1 = ''c'' \<and>
        rows arr ! 1 = mean_dim1 h ! 1"
      by (fact third)
  qed
qed

section \<open>Batch-size invariance\<close>

lemma mapM_append:
  "mapM f (xs @ ys) =
     (case mapM f xs of
        Inl e \<Rightarrow> Inl e
      | Inr us \<Rightarrow> (case mapM f ys of Inl e \<Rightarrow> Inl e | Inr vs \<Rightarrow> Inr (us @ vs)))"
  by (induction xs) (auto split: sum.splits)

lemma row_wise_loop:
  assumes rw: "row_wise tok enc f"
  shows "0 < B \<Longrightarrow>
     embed_batches (py_range a (length texts) B) B texts
       (stateless_tokenizer tok) (stateless_encoder enc) acc w =
     (case mapM f (drop a texts) of Inl e \<Rightarrow> Inl e | Inr h \<Rightarrow> Inr (acc @ mean_dim1 h), w)"
proof (induction a "length texts" B arbitrary: acc rule: py_range.induct)
  case (1 start step)
  show ?case
  proof (cases "length texts \<le> start")
    case True
    then show ?thesis
      by (simp add: py_range.simps [of start] mean_dim1_def)
  next
    case False
    with "1.prems" have c: "\<not> (step = 0 \<or> length texts \<le> start)" by simp
    have range: "py_range start (length texts) step =
                 start # py_range (start + step) (length texts) step"
      using c by (subst py_range.simps) simp
    have split: "drop start texts = slice texts start (start + step) @ drop (start + step) texts"
    proof -
      have "drop start texts = take step (drop start texts) @ drop step (drop start texts)"
        by (simp only: append_take_drop_id)
      then show ?thesis by (simp add: slice_def add.commute)
    qed
    have "0 < length (slice texts start (start + step))"
      using c by (simp add: length_slice)
    then have "slice texts start (start + step) \<noteq> []" by auto
    with rw have enc: "encode tok enc (slice texts start (start + step)) =
               mapM f (slice texts start (start + step))"
      by (simp add: row_wise_def)
    show ?thesis
      unfolding range stateless_step enc
      by (subst split)
        (auto simp: mapM_append "1.hyps" [OF c "1.prems"] mean_dim1_append split: sum.splits)
  qed
qed

lemma small_memory_encode:
  "encode toy_tokenizer small_memory_encoder batch_texts =
     (if 4 < length batch_texts then Inl OutOfMemoryError
      else Inr (map (\<lambda>t. map (\<lambda>t. [real t]) (toy_ids max_length t)) batch_texts))"
  by (simp add: encode_def toy_tokenizer_def small_memory_encoder_def toy_encoder_def)

text \<open>
  C4, as the specification states it, makes the result independent of the batch
  boundaries for any encoder. An encoder that runs out of memory on a large batch breaks
  this: with one that takes at most four texts at a time, five texts are embedded in
  batches of four, while the notebook's batch size 8, which sends all five as one batch,
  raises.
\<close>

theorem batch_size_invariance_counterexample:
  "get_model_embeddings_with 4 [''a'', ''b'', ''c'', ''d'', ''e'']
     (stateless_tokenizer toy_tokenizer) (stateless_encoder small_memory_encoder) () =
     (Inr \<lparr>shape = [5, 1],
           rows = [[98 / 128], [99 / 128], [100 / 128], [101 / 128], [102 / 128]]\<rparr>, ()) \<and>
   get_model_embeddings [''a'', ''b'', ''c'', ''d'', ''e'']
     (stateless_tokenizer toy_tokenizer) (stateless_encoder small_memory_encoder) () =
     (Inl OutOfMemoryError, ()) \<and>
   get_model_embeddings_with 4 [''a'', ''b'', ''c'', ''d'', ''e'']
     (stateless_tokenizer toy_tokenizer) (stateless_encoder small_memory_encoder) () \<noteq>
   get_model_embeddings [''a'', ''b'', ''c'', ''d'', ''e'']
     (stateless_tokenizer toy_tokenizer) (stateless_encoder small_memory_encoder) ()"
proof -
  have four: "get_model_embeddings_with 4 [''a'', ''b'', ''c'', ''d'', ''e'']
     (stateless_tokenizer toy_tokenizer) (stateless_encoder small_memory_encoder) () =
     (Inr \<lparr>shape = [5, 1],
           rows = [[98 / 128], [99 / 128], [100 / 128], [101 / 128], [102 / 128]]\<rparr>, ())"
    apply (simp add: get_model_embeddings_with_def py_range_pair stateless_step
        small_memory_encode slice_def max_length_def)
    apply (simp add: toy_ids_def mean_dim1_def hidden_size_def np_array_def comp_def
        sum_list_replicate)
    done
  have eight: "get_model_embeddings [''a'', ''b'', ''c'', ''d'', ''e'']
     (stateless_tokenizer toy_tokenizer) (stateless_encoder small_memory_encoder) () =
     (Inl OutOfMemoryError, ())"
    by (simp add: get_model_embeddings_def get_model_embeddings_with_def py_range_single
        stateless_step small_memory_encode slice_def)
  from four eight show ?thesis by simp
qed

text \<open>
  C4, amended. For a tokenizer and an encoder that treat the texts of a batch
  independently of each other (a non-empty batch is tokenized and encoded text by text,
  and raises exactly when one of its texts does), the extractor's output for every
  positive batch size is the output of one call on the whole corpus as a single batch
  (the empty array for the empty corpus), so it is the same for any two positive batch
  sizes, the notebook's 8 among them, and does not depend on where the batch boundaries
  fall.
\<close>

theorem batch_size_invariance:
  assumes "row_wise tok enc f" and "0 < B" and "0 < B'"
  shows "get_model_embeddings_with B texts (stateless_tokenizer tok) (stateless_encoder enc) w =
           (if texts = [] then Inr \<lparr>shape = [0], rows = []\<rparr>
            else case encode tok enc texts of
                   Inl e \<Rightarrow> Inl e
                 | Inr h \<Rightarrow> np_array (mean_dim1 h), w) \<and>
         get_model_embeddings_with B texts (stateless_tokenizer tok) (stateless_encoder enc) w =
           get_model_embeddings_with B' texts (stateless_tokenizer tok) (stateless_encoder enc) w \<and>
         get_model_embeddings texts (stateless_tokenizer tok) (stateless_encoder enc) w =
           get_model_embeddings_with B texts (stateless_tokenizer tok) (stateless_encoder enc) w"
proof -
  have one: "get_model_embeddings_with n texts (stateless_tokenizer tok) (stateless_encoder enc) w =
           (if texts = [] then Inr \<lparr>shape = [0], rows = []\<rparr>
            else case encode tok enc texts of
                   Inl e \<Rightarrow> Inl e
                 | Inr h \<Rightarrow> np_array (mean_dim1 h), w)"
    if n: "0 < n" for n
  proof (cases "texts = []")
    case True
    with n show ?thesis
      by (simp add: get_model_embeddings_with_def py_range.simps [of 0] np_array_def)
  next
    case False
    with assms(1) have "encode tok enc texts = mapM f texts" by (simp add: row_wise_def)
    with False n row_wise_loop [OF assms(1) n, of 0 texts "[]" w] show ?thesis
      by (auto simp: get_model_embeddings_with_def split: sum.splits)
  qed
  show ?thesis
    using one [OF assms(2)] one [OF assms(3)] one [of 8]
    by (simp add: get_model_embeddings_def)
qed

theorem batch_size_invariance_witness:
  "get_model_embeddings_with 3 [''ab'', ''c''] (stateless_tokenizer toy_tokenizer)
     (stateless_encoder toy_encoder) () =
     (Inr \<lparr>shape = [2, 1], rows = [[197 / 128], [100 / 128]]\<rparr>, ()) \<and>
   get_model_embeddings_with 3 [''ab'', ''c''] (stateless_tokenizer toy_tokenizer)
     (stateless_encoder toy_encoder) () =
   get_model_embeddings_with 1 [''ab'', ''c''] (stateless_tokenizer toy_tokenizer)
     (stateless_encoder toy_encoder) ()"
proof -
  have "0 < (3::nat)" and "0 < (1::nat)" by simp_all
  note r = batch_size_invariance [OF toy_row_wise this, of "[''ab'', ''c'']" "()"]
  from r have "get_model_embeddings_with 3 [''ab'', ''c''] (stateless_tokenizer toy_tokenizer)
     (stateless_encoder toy_encoder) () =
     (if [''ab'', ''c''] = [] then Inr \<lparr>shape = [0], rows = []\<rparr>
      else case encode toy_tokenizer toy_encoder [''ab'', ''c''] of
             Inl e \<Rightarrow> Inl e
           | Inr h \<Rightarrow> np_array (mean_dim1 h), ())"
    by (rule conjunct1)
  then have a: "get_model_embeddings_with 3 [''ab'', ''c''] (stateless_tokenizer toy_tokenizer)
     (stateless_encoder toy_encoder) () =
     (Inr \<lparr>shape = [2, 1], rows = [[197 / 128], [100 / 128]]\<rparr>, ())"
    by (simp add: toy_encode toy_ids_def max_length_def mean_dim1_def hidden_size_def
        np_array_def comp_def sum_list_replicate)
  from r have b: "get_model_embeddings_with 3 [''ab'', ''c''] (stateless_tokenizer toy_tokenizer)
     (stateless_encoder toy_encoder) () =
   get_model_embeddings_with 1 [''ab'', ''c''] (stateless_tokenizer toy_tokenizer)
     (stateless_encoder toy_encoder) ()"
    by (elim conjE)
  from a b show ?thesis by (rule conjI)
qed

section \<open>Failures\<close>



lemma tokenized_append: "tokenized (xs @ ys) = tokenized xs @ tokenized ys"
  by (induction xs rule: tokenized.induct) simp_all








section \<open>What the pooled vector is\<close>

text \<open>
  C10. For every text of a corpus on which no batch raises, the extractor returns an
  array whose row for that text is the sum of the hidden-state vectors over all 128
  positions of the padded sequence divided by 128, whatever the text's own length: the
  tokenizer pads to \<open>max_length\<close>, and the mean runs over the whole sequence axis
  without looking at the attention mask.
\<close>

theorem pooling_over_all_positions:
  assumes ws: "well_shaped tok enc D"
    and ok: "\<forall>k<length (batches 8 texts). \<exists>h. encode tok enc (batches 8 texts ! k) = Inr h"
    and i: "i < length texts"
  shows "\<exists>arr h.
           get_model_embeddings texts (stateless_tokenizer tok) (stateless_encoder enc) w
             = (Inr arr, w) \<and>
           encode tok enc (slice texts (8 * (i div 8)) (8 * (i div 8) + 8)) = Inr h \<and>
           length (h ! (i mod 8)) = 128 \<and>
           rows arr ! i = map (\<lambda>k. (\<Sum>j = 0..<128. h ! (i mod 8) ! j ! k) / 128) [0..<D]"
proof -
  from run_returns [OF ws ok, of w] obtain arr where
    run: "get_model_embeddings texts (stateless_tokenizer tok) (stateless_encoder enc) w
            = (Inr arr, w)"
    by blast
  then have run': "get_model_embeddings_with 8 texts (stateless_tokenizer tok)
      (stateless_encoder enc) w = (Inr arr, w)"
    by (simp add: get_model_embeddings_def)
  from run_rows(4) [OF ws _ run' i] obtain h where
    h: "encode tok enc (slice texts (8 * (i div 8)) (8 * (i div 8) + 8)) = Inr h" and
    r: "i mod 8 < length h" and
    len: "length (h ! (i mod 8)) = max_length" and
    dim: "list_all (\<lambda>v. length v = D) (h ! (i mod 8))" and
    row: "rows arr ! i = mean_dim1 h ! (i mod 8)"
    by auto
  let ?s = "h ! (i mod 8)"
  have sum: "(\<Sum>v\<leftarrow>?s. v ! k) = (\<Sum>j = 0..<128. ?s ! j ! k)" for k
    using len by (simp add: sum_list_sum_nth max_length_def)
  have "mean_dim1 h ! (i mod 8) = map (\<lambda>k. (\<Sum>j = 0..<128. ?s ! j ! k) / 128) [0..<D]"
    using r len sum by (simp add: mean_dim1_nth hidden_size_shaped [OF len dim] max_length_def)
  with row have pooled:
    "rows arr ! i = map (\<lambda>k. (\<Sum>j = 0..<128. h ! (i mod 8) ! j ! k) / 128) [0..<D]"
    by simp
  from len have l128: "length (h ! (i mod 8)) = 128" by (simp add: max_length_def)
  show ?thesis
  proof (intro exI [of _ arr] exI [of _ h] conjI)
    show "get_model_embeddings texts (stateless_tokenizer tok) (stateless_encoder enc) w
             = (Inr arr, w)"
      by (fact run)
    show "encode tok enc (slice texts (8 * (i div 8)) (8 * (i div 8) + 8)) = Inr h" by (fact h)
    show "length (h ! (i mod 8)) = 128" by (fact l128)
    show "rows arr ! i = map (\<lambda>k. (\<Sum>j = 0..<128. h ! (i mod 8) ! j ! k) / 128) [0..<D]"
      by (fact pooled)
  qed
qed

theorem pooling_over_all_positions_witness:
  "\<exists>arr h.
     get_model_embeddings [''ab'', ''c''] (stateless_tokenizer toy_tokenizer)
       (stateless_encoder toy_encoder) () = (Inr arr, ()) \<and>
     encode toy_tokenizer toy_encoder (slice [''ab'', ''c''] 0 8) = Inr h \<and>
     length (h ! 1) = 128 \<and>
     rows arr ! 1 = map (\<lambda>k. (\<Sum>j = 0..<128. h ! 1 ! j ! k) / 128) [0..<1]"
proof -
  have "1 < length [''ab'', ''c'']" by simp
  from pooling_over_all_positions [OF toy_well_shaped toy_never_raises this, of "()"]
  obtain arr h where
    "get_model_embeddings [''ab'', ''c''] (stateless_tokenizer toy_tokenizer)
       (stateless_encoder toy_encoder) () = (Inr arr, ())"
    "encode toy_tokenizer toy_encoder
       (slice [''ab'', ''c''] (8 * (1 div 8)) (8 * (1 div 8) + 8)) = Inr h"
    "length (h ! (1 mod 8)) = 128"
    "rows arr ! 1 = map (\<lambda>k. (\<Sum>j = 0..<128. h ! (1 mod 8) ! j ! k) / 128) [0..<1]"
    by blast
  then show ?thesis
    by (intro exI [of _ arr] exI [of _ h]) simp
qed

text \<open>
  C2, as the specification states it, asks that the pooled vector of a text with at most
  \<open>max_length\<close> tokens be the mean over its real tokens only. The extractor averages
  over all positions: for the two-token text \<open>''ab''\<close> it returns 197/128, where the
  attention-masked mean is 197/2.
\<close>

lemma toy_run_single:
  "get_model_embeddings [''ab''] (stateless_tokenizer toy_tokenizer)
     (stateless_encoder toy_encoder) w =
   (Inr \<lparr>shape = [1, 1], rows = [[197 / 128]]\<rparr>, w)"
  apply (simp add: get_model_embeddings_def get_model_embeddings_with_def py_range_single
     stateless_step toy_encode toy_ids_def slice_def max_length_def)
  apply (simp add: mean_dim1_def hidden_size_def np_array_def comp_def sum_list_replicate)
  done

lemma toy_masked_single:
  "spec_masked_embeddings toy_tokenizer toy_encoder [''ab''] = Inr [[197 / 2]]"
  apply (simp add: spec_masked_embeddings_def toy_tokenizer_def toy_encoder_def toy_ids_def
      toy_mask_def max_length_def)
  apply (simp add: spec_masked_mean_pool_def hidden_size_def sum_list_replicate
      zip_replicate2 comp_def zip_append2)
  done

theorem masked_pooling_counterexample:
  "map_sum id rows (fst (get_model_embeddings [''ab''] (stateless_tokenizer toy_tokenizer)
      (stateless_encoder toy_encoder) ())) = Inr [[197 / 128]] \<and>
   spec_masked_embeddings toy_tokenizer toy_encoder [''ab''] = Inr [[197 / 2]] \<and>
   map_sum id rows (fst (get_model_embeddings [''ab''] (stateless_tokenizer toy_tokenizer)
      (stateless_encoder toy_encoder) ())) \<noteq> spec_masked_embeddings toy_tokenizer toy_encoder [''ab'']"
  by (simp add: toy_run_single toy_masked_single)

text \<open>
  C2, amended. For every text of a corpus on which no batch raises, the extractor returns
  an array whose row for that text is the mean of the hidden states over all
  \<open>max_length\<close> positions of the padded sequence, padding included; the attention mask
  is not consulted. When the text's tokens fill all \<open>max_length\<close> positions (the mask
  is 1 everywhere, there is no padding), that row is the attention-masked mean.
\<close>

theorem masked_pooling_without_padding:
  assumes ws: "well_shaped tok enc D"
    and ok: "\<forall>k<length (batches 8 texts). \<exists>h. encode tok enc (batches 8 texts ! k) = Inr h"
    and i: "i < length texts"
  shows "\<exists>arr inputs h.
           get_model_embeddings texts (stateless_tokenizer tok) (stateless_encoder enc) w
             = (Inr arr, w) \<and>
           tok (slice texts (8 * (i div 8)) (8 * (i div 8) + 8)) max_length = Inr inputs \<and>
           enc inputs = Inr h \<and>
           rows arr ! i = map (\<lambda>k. (\<Sum>v\<leftarrow>h ! (i mod 8). v ! k) / real max_length) [0..<D] \<and>
           (attention_mask inputs ! (i mod 8) = replicate max_length 1 \<longrightarrow>
              rows arr ! i =
                spec_masked_mean_pool (h ! (i mod 8)) (attention_mask inputs ! (i mod 8)))"
proof -
  from run_returns [OF ws ok, of w] obtain arr where
    run: "get_model_embeddings texts (stateless_tokenizer tok) (stateless_encoder enc) w
            = (Inr arr, w)"
    by blast
  then have run': "get_model_embeddings_with 8 texts (stateless_tokenizer tok)
      (stateless_encoder enc) w = (Inr arr, w)"
    by (simp add: get_model_embeddings_def)
  from run_rows(4) [OF ws _ run' i] obtain h where
    h: "encode tok enc (slice texts (8 * (i div 8)) (8 * (i div 8) + 8)) = Inr h" and
    r: "i mod 8 < length h" and
    len: "length (h ! (i mod 8)) = max_length" and
    dim: "list_all (\<lambda>v. length v = D) (h ! (i mod 8))" and
    row: "rows arr ! i = mean_dim1 h ! (i mod 8)"
    by auto
  from h obtain inputs where
    tok: "tok (slice texts (8 * (i div 8)) (8 * (i div 8) + 8)) max_length = Inr inputs" and
    enc: "enc inputs = Inr h"
    by (auto simp: encode_def split: sum.splits)
  let ?s = "h ! (i mod 8)"
  have all: "rows arr ! i = map (\<lambda>k. (\<Sum>v\<leftarrow>?s. v ! k) / real max_length) [0..<D]"
    using r row len by (simp add: mean_dim1_nth hidden_size_shaped [OF len dim])
  have z: "zip ?s (replicate max_length (1::nat)) = map (\<lambda>v. (v, 1)) ?s"
    using len by (simp add: zip_replicate2)
  have num: "(\<Sum>(v, m)\<leftarrow>zip ?s (replicate max_length 1). real m * v ! k) = (\<Sum>v\<leftarrow>?s. v ! k)"
    for k
    unfolding z by (simp add: comp_def)
  have den: "sum_list (replicate max_length (1::nat)) = length ?s"
    using len by (simp add: sum_list_replicate)
  have masked: "spec_masked_mean_pool ?s (replicate max_length 1) =
        map (\<lambda>k. (\<Sum>v\<leftarrow>?s. v ! k) / real (length ?s)) [0..<hidden_size ?s]"
    by (simp only: spec_masked_mean_pool_def num den)
  have full: "rows arr ! i = spec_masked_mean_pool ?s (attention_mask inputs ! (i mod 8))"
    if "attention_mask inputs ! (i mod 8) = replicate max_length 1"
    using that r row masked by (simp add: mean_dim1_nth)
  show ?thesis
  proof (intro exI [of _ arr] exI [of _ inputs] exI [of _ h] conjI impI)
    show "get_model_embeddings texts (stateless_tokenizer tok) (stateless_encoder enc) w
             = (Inr arr, w)"
      by (fact run)
    show "tok (slice texts (8 * (i div 8)) (8 * (i div 8) + 8)) max_length = Inr inputs"
      by (fact tok)
    show "enc inputs = Inr h" by (fact enc)
    show "rows arr ! i = map (\<lambda>k. (\<Sum>v\<leftarrow>h ! (i mod 8). v ! k) / real max_length) [0..<D]"
      by (fact all)
    show "rows arr ! i = spec_masked_mean_pool (h ! (i mod 8)) (attention_mask inputs ! (i mod 8))"
      if "attention_mask inputs ! (i mod 8) = replicate max_length 1"
      using that by (rule full)
  qed
qed

theorem masked_pooling_without_padding_witness:
  "\<exists>arr inputs h.
     get_model_embeddings [replicate 128 CHR ''a''] (stateless_tokenizer toy_tokenizer)
       (stateless_encoder toy_encoder) () = (Inr arr, ()) \<and>
     toy_tokenizer [replicate 128 CHR ''a''] max_length = Inr inputs \<and>
     toy_encoder inputs = Inr h \<and>
     attention_mask inputs ! 0 = replicate max_length 1 \<and>
     rows arr ! 0 = spec_masked_mean_pool (h ! 0) (attention_mask inputs ! 0)"
proof -
  let ?T = "[replicate 128 CHR ''a'']"
  have "0 < length ?T" by simp
  from masked_pooling_without_padding [OF toy_well_shaped toy_never_raises this, of "()"]
  obtain arr inputs h where
    run: "get_model_embeddings ?T (stateless_tokenizer toy_tokenizer)
       (stateless_encoder toy_encoder) () = (Inr arr, ())" and
    tok: "toy_tokenizer (slice ?T (8 * (0 div 8)) (8 * (0 div 8) + 8)) max_length = Inr inputs" and
    enc: "toy_encoder inputs = Inr h" and
    imp: "attention_mask inputs ! (0 mod 8) = replicate max_length 1 \<longrightarrow>
              rows arr ! 0 =
                spec_masked_mean_pool (h ! (0 mod 8)) (attention_mask inputs ! (0 mod 8))"
    by blast
  from tok have tok': "toy_tokenizer ?T max_length = Inr inputs"
    by (simp add: slice_def)
  then have m: "attention_mask inputs ! 0 = replicate max_length 1"
    by (auto simp: toy_tokenizer_def toy_mask_def max_length_def)
  with imp have "rows arr ! 0 = spec_masked_mean_pool (h ! 0) (attention_mask inputs ! 0)"
    by simp
  with run tok' enc m show ?thesis by blast
qed

section \<open>The empty corpus\<close>

text \<open>
  C3, as the specification states it, gives the result for the empty corpus the shape
  (0, D). The extractor returns \<^verbatim>\<open>np.array([])\<close>, whose shape is (0,): with the
  small encoder, whose D is 1, the shape is not (0, 1).
\<close>

theorem empty_input_counterexample:
  "map_sum id shape (fst (get_model_embeddings [] (stateless_tokenizer toy_tokenizer)
      (stateless_encoder toy_encoder) ())) = Inr [0] \<and>
   map_sum id shape (fst (get_model_embeddings [] (stateless_tokenizer toy_tokenizer)
      (stateless_encoder toy_encoder) ())) \<noteq> Inr [0, 1]"
  by (simp add: get_model_embeddings_def get_model_embeddings_with_def py_range.simps [of 0]
      np_array_def)

text \<open>
  C3, amended. For the empty corpus the extractor returns the empty one-dimensional array
  (no rows, shape (0,)) whatever the tokenizer and the encoder are, and calls neither:
  the world is unchanged, and collaborators that record their calls record none.
\<close>

theorem empty_input:
  "get_model_embeddings [] tokenizer model w = (Inr \<lparr>shape = [0], rows = []\<rparr>, w) \<and>
   get_model_embeddings [] (logged_tokenizer tokenizer) (logged_encoder model) (w, no_calls) =
     (Inr \<lparr>shape = [0], rows = []\<rparr>, (w, no_calls))"
  by (simp add: get_model_embeddings_def get_model_embeddings_with_def py_range.simps [of 0]
      np_array_def)

theorem empty_input_witness:
  "get_model_embeddings [] (stateless_tokenizer toy_tokenizer) (stateless_encoder small_memory_encoder)
     (0::nat) = (Inr \<lparr>shape = [0], rows = []\<rparr>, 0)"
  using empty_input [of "stateless_tokenizer toy_tokenizer" "stateless_encoder small_memory_encoder" "0::nat"]
  by simp

section \<open>The batches\<close>





lemma logged_tokenizer_apply:
  "logged_tokenizer tokenizer batch_texts n (w, cl) =
     (case tokenizer batch_texts n w of
        (r, w') \<Rightarrow> (r, (w', cl\<lparr>tokenizer_calls := tokenizer_calls cl @ [batch_texts]\<rparr>)))"
  by (simp add: logged_tokenizer_def)

lemma logged_encoder_apply:
  "logged_encoder model inputs (w, cl) =
     (case model inputs w of
        (r, w') \<Rightarrow> (r, (w', cl\<lparr>encoder_calls := encoder_calls cl @ [inputs]\<rparr>)))"
  by (simp add: logged_encoder_def)


text \<open>Recording the calls changes neither the result nor the world beside the log.\<close>

lemma logged_same_result:
  "embed_batches idxs B texts tokenizer model acc w = (r, w') \<Longrightarrow>
   \<exists>cl'. embed_batches idxs B texts (logged_tokenizer tokenizer) (logged_encoder model) acc (w, cl)
          = (r, (w', cl'))"
proof (induction idxs arbitrary: acc w cl)
  case Nil
  then show ?case by simp
next
  case (Cons i idxs)
  obtain r1 w1 where t: "tokenizer (slice texts i (i + B)) max_length w = (r1, w1)"
    by (cases "tokenizer (slice texts i (i + B)) max_length w")
  show ?case
  proof (cases r1)
    case (Inl e)
    with Cons.prems t show ?thesis
      by (simp add: embed_batches.simps(2) logged_tokenizer_apply)
  next
    case r1: (Inr inputs)
    obtain r2 w2 where m: "model inputs w1 = (r2, w2)"
      by (cases "model inputs w1")
    show ?thesis
    proof (cases r2)
      case (Inl e)
      with Cons.prems t r1 m show ?thesis
        by (simp add: embed_batches.simps(2) logged_tokenizer_apply logged_encoder_apply)
    next
      case (Inr h)
      with Cons.prems t r1 m have
        "embed_batches idxs B texts tokenizer model (acc @ mean_dim1 h) w2 = (r, w')"
        by (simp add: embed_batches.simps(2))
      from Cons.IH [OF this] Inr t r1 m show ?thesis
        by (simp add: embed_batches.simps(2) logged_tokenizer_apply logged_encoder_apply)
    qed
  qed
qed






section \<open>The pairing of embeddings and labels at the split\<close>

lemma imdb_like_nth:
  "i < 25000 \<Longrightarrow> imdb_like ! i =
     \<lparr>ex_text = replicate (Suc i) CHR ''x'', ex_label = (if i < 12500 then 0 else 1)\<rparr>"
  by (simp add: imdb_like_def del: upt_rec_numeral)

lemma length_imdb_like: "length imdb_like = 25000"
  by (simp add: imdb_like_def del: upt_rec_numeral)

lemma step5_imdb_like_text:
  "i < 1000 \<Longrightarrow> fst (step5 imdb_like) ! i = ex_text (imdb_like ! i)"
  by (simp add: step5_def load_dataset_def slice_def num_samples_def length_imdb_like Let_def)

lemma step8_imdb_like:
  "length (snd (step8 imdb_like)) = 1000"
  "500 \<le> i \<Longrightarrow> i < 1000 \<Longrightarrow> snd (step8 imdb_like) ! i = ex_label (imdb_like ! (12000 + i))"
  "500 \<le> i \<Longrightarrow> i < 1000 \<Longrightarrow> fst (step8 imdb_like) ! i = ex_text (imdb_like ! (12000 + i))"
  by (simp_all add: step8_def load_dataset_def slice_def num_samples_def length_imdb_like
      nth_append Let_def)

text \<open>
  C5. The specification asks that at the split every embedding row be paired with the
  label of the text it was extracted from. The notebook extracts the embeddings from the
  texts of step 5 and never again; step 8 rebinds the labels to those of another sample.
  On a train split laid out as IMDB's, row 500 is the embedding of review 500, whose
  label is 0, and the split pairs it with the label of review 12500, which is 1.
\<close>

theorem split_pairs_row_with_another_label:
  "train_test_split_arguments imdb_like tokenizer teacher_model w =
     (case get_model_embeddings (fst (step5 imdb_like)) tokenizer teacher_model w of
        (Inl e, w') \<Rightarrow> Inl e
      | (Inr embeddings, w') \<Rightarrow> Inr (embeddings, snd (step8 imdb_like))) \<and>
   fst (step5 imdb_like) ! 500 = ex_text (imdb_like ! 500) \<and>
   ex_label (imdb_like ! 500) = 0 \<and>
   snd (step8 imdb_like) ! 500 = ex_label (imdb_like ! 12500) \<and>
   ex_label (imdb_like ! 12500) = 1 \<and>
   fst (step8 imdb_like) ! 500 = ex_text (imdb_like ! 12500) \<and>
   ex_text (imdb_like ! 12500) \<noteq> ex_text (imdb_like ! 500)"
proof -
  have "train_test_split_arguments imdb_like tokenizer teacher_model w =
     (case get_model_embeddings (fst (step5 imdb_like)) tokenizer teacher_model w of
        (Inl e, w') \<Rightarrow> Inl e
      | (Inr embeddings, w') \<Rightarrow> Inr (embeddings, snd (step8 imdb_like)))"
    by (simp add: train_test_split_arguments_def split: prod.splits sum.splits)
  moreover have "ex_text (imdb_like ! 12500) \<noteq> ex_text (imdb_like ! 500)"
  proof
    assume "ex_text (imdb_like ! 12500) = ex_text (imdb_like ! 500)"
    then have "length (ex_text (imdb_like ! 12500)) = length (ex_text (imdb_like ! 500))"
      by simp
    then show False by (simp add: imdb_like_nth)
  qed
  ultimately show ?thesis
    using step8_imdb_like(2,3) [of 500]
    by (simp add: step5_imdb_like_text imdb_like_nth)
qed

section \<open>The best student\<close>

lemma max_from_greatest:
  "max_from key best xs \<in> set (best # xs) \<and>
   (\<forall>y\<in>set (best # xs). key y \<le> key (max_from key best xs))"
proof (induction xs arbitrary: best)
  case Nil
  then show ?case by simp
next
  case (Cons x xs)
  let ?b = "if key best < key x then x else best"
  from Cons.IH [of ?b] have in_set: "max_from key ?b xs \<in> set (?b # xs)"
    and ge: "\<forall>y\<in>set (?b # xs). key y \<le> key (max_from key ?b xs)"
    by blast+
  from ge have b: "key ?b \<le> key (max_from key ?b xs)" by simp
  have "key best \<le> key ?b" "key x \<le> key ?b" by auto
  with b have "key best \<le> key (max_from key ?b xs)" "key x \<le> key (max_from key ?b xs)"
    by (meson order_trans)+
  with in_set ge show ?case by auto
qed

lemma train_students_returns:
  assumes "\<forall>(name, model)\<in>set items.
             \<exists>fitted y_pred accuracy report.
               fit model X_train y_train = Inr fitted \<and> predict fitted X_test = Inr y_pred \<and>
               accuracy_score y_test y_pred = Inr accuracy \<and>
               classification_report y_test y_pred = Inr report"
  shows "\<exists>ms' rs'. train_students fit predict accuracy_score classification_report items
            X_train y_train X_test y_test ms rs = Inr (ms', rs')"
  using assms
proof (induction items arbitrary: ms rs)
  case Nil
  then show ?case by simp
next
  case (Cons item items)
  obtain name model where item: "item = (name, model)" by (cases item)
  from Cons.prems item obtain fitted y_pred accuracy report where
    "fit model X_train y_train = Inr fitted" "predict fitted X_test = Inr y_pred"
    "accuracy_score y_test y_pred = Inr accuracy"
    "classification_report y_test y_pred = Inr report"
    by auto
  moreover from Cons.prems have "\<forall>(name, model)\<in>set items.
             \<exists>fitted y_pred accuracy report.
               fit model X_train y_train = Inr fitted \<and> predict fitted X_test = Inr y_pred \<and>
               accuracy_score y_test y_pred = Inr accuracy \<and>
               classification_report y_test y_pred = Inr report"
    by simp
  from Cons.IH [OF this, of "AList.update name fitted ms" "AList.update name accuracy rs"]
  have "\<exists>ms' rs'. train_students fit predict accuracy_score classification_report items
            X_train y_train X_test y_test (AList.update name fitted ms)
            (AList.update name accuracy rs) = Inr (ms', rs')" .
  ultimately show ?case using item by simp
qed

lemma train_students_inv:
  assumes "distinct (map fst items)"
    and "train_students fit predict accuracy_score classification_report items
           X_train y_train X_test y_test ms rs = Inr (ms', rs')"
  shows "(\<forall>(n, m)\<in>set items.
            \<exists>c y a. fit m X_train y_train = Inr c \<and> map_of ms' n = Some c \<and>
                    predict c X_test = Inr y \<and> accuracy_score y_test y = Inr a \<and>
                    map_of rs' n = Some a) \<and>
         (\<forall>n. n \<notin> fst ` set items \<longrightarrow> map_of ms' n = map_of ms n \<and> map_of rs' n = map_of rs n)"
  using assms
proof (induction items arbitrary: ms rs)
  case Nil
  then show ?case by simp
next
  case (Cons item items)
  obtain name model where item: "item = (name, model)" by (cases item)
  from Cons.prems(2) item obtain fitted y_pred accuracy where
    f: "fit model X_train y_train = Inr fitted" and
    p: "predict fitted X_test = Inr y_pred" and
    a: "accuracy_score y_test y_pred = Inr accuracy" and
    rest: "train_students fit predict accuracy_score classification_report items
             X_train y_train X_test y_test
             (AList.update name fitted ms) (AList.update name accuracy rs) = Inr (ms', rs')"
    by (auto split: sum.splits)
  from Cons.prems(1) item have d: "distinct (map fst items)" and fresh: "name \<notin> fst ` set items"
    by auto
  note IH = Cons.IH [OF d rest]
  from IH fresh have head: "map_of ms' name = Some fitted" "map_of rs' name = Some accuracy"
    by (simp_all add: update_conv')
  show ?case
  proof (intro conjI ballI allI impI)
    fix x assume x: "x \<in> set (item # items)"
    obtain n m where nm: "x = (n, m)" by (cases x)
    from x nm item consider "n = name \<and> m = model" | "(n, m) \<in> set items" by auto
    then have "\<exists>c y a. fit m X_train y_train = Inr c \<and> map_of ms' n = Some c \<and>
                    predict c X_test = Inr y \<and> accuracy_score y_test y = Inr a \<and>
                    map_of rs' n = Some a"
    proof cases
      case 1
      with head f p a show ?thesis by auto
    next
      case 2
      with IH show ?thesis by blast
    qed
    with nm show "case x of (n, m) \<Rightarrow>
            \<exists>c y a. fit m X_train y_train = Inr c \<and> map_of ms' n = Some c \<and>
                    predict c X_test = Inr y \<and> accuracy_score y_test y = Inr a \<and>
                    map_of rs' n = Some a"
      by simp
  next
    fix n assume n: "n \<notin> fst ` set (item # items)"
    with item have "n \<noteq> name" "n \<notin> fst ` set items" by auto
    with IH show "map_of ms' n = map_of ms n" by (simp add: update_conv')
  next
    fix n assume n: "n \<notin> fst ` set (item # items)"
    with item have "n \<noteq> name" "n \<notin> fst ` set items" by auto
    with IH show "map_of rs' n = map_of rs n" by (simp add: update_conv')
  qed
qed

text \<open>
  C9. When \<^verbatim>\<open>fit\<close>, \<^verbatim>\<open>predict\<close>, \<^verbatim>\<open>accuracy_score\<close> and
  \<^verbatim>\<open>classification_report\<close> return for each of the three students, steps 9 to 11 run
  through: the name chosen as best is one of the three, the object written to the
  artifact file is the classifier that \<^verbatim>\<open>models\<close> binds to that name, every student
  has been fitted and \<^verbatim>\<open>models\<close> binds its name to the fitted classifier, whose
  test-set accuracy \<^verbatim>\<open>accuracy_score(y_test, predict(X_test))\<close> is the one recorded in
  \<^verbatim>\<open>results\<close> and is at most the accuracy of the best; \<^verbatim>\<open>models\<close> holds no other
  classifier.
\<close>

theorem best_student_is_saved:
  assumes ok: "\<forall>(name, model)\<in>set (students lr rf mlp).
             \<exists>fitted y_pred accuracy report.
               fit model X_train y_train = Inr fitted \<and> predict fitted X_test = Inr y_pred \<and>
               accuracy_score y_test y_pred = Inr accuracy \<and>
               classification_report y_test y_pred = Inr report"
  shows "\<exists>out best_model best_accuracy.
           train_select_save fit predict accuracy_score classification_report
             (students lr rf mlp) X_train y_train X_test y_test fs = Inr out \<and>
           best_model_name out \<in> fst ` set (students lr rf mlp) \<and>
           map_of (models out) (best_model_name out) = Some best_model \<and>
           files out = fs(''distilled_model.joblib'' \<mapsto> best_model) \<and>
           map_of (results out) (best_model_name out) = Some best_accuracy \<and>
           (\<forall>(name, model)\<in>set (students lr rf mlp).
              \<exists>fitted y_pred accuracy.
                fit model X_train y_train = Inr fitted \<and>
                map_of (models out) name = Some fitted \<and>
                predict fitted X_test = Inr y_pred \<and>
                accuracy_score y_test y_pred = Inr accuracy \<and>
                map_of (results out) name = Some accuracy \<and>
                accuracy \<le> best_accuracy) \<and>
           (\<forall>name c. map_of (models out) name = Some c \<longrightarrow>
              name \<in> fst ` set (students lr rf mlp))"
proof -
  let ?ms = "students lr rf mlp"
  from train_students_returns [where items = ?ms and fit = fit and predict = predict
      and accuracy_score = accuracy_score and classification_report = classification_report
      and X_train = X_train and y_train = y_train and X_test = X_test and y_test = y_test
      and ms = ?ms and rs = "[]", OF ok]
  obtain trained accuracies where
    loop: "train_students fit predict accuracy_score classification_report ?ms
             X_train y_train X_test y_test ?ms [] = Inr (trained, accuracies)"
    by blast
  have d: "distinct (map fst ?ms)" by (simp add: students_def)
  note inv = train_students_inv [OF d loop]
  from inv have each: "\<forall>(n, m)\<in>set ?ms.
            \<exists>c y a. fit m X_train y_train = Inr c \<and> map_of trained n = Some c \<and>
                    predict c X_test = Inr y \<and> accuracy_score y_test y = Inr a \<and>
                    map_of accuracies n = Some a"
    and other: "\<forall>n. n \<notin> fst ` set ?ms \<longrightarrow>
            map_of trained n = map_of ?ms n \<and> map_of accuracies n = map_of [] n"
    by blast+
  have akeys: "n \<in> fst ` set ?ms" if "n \<in> set (map fst accuracies)" for n
  proof (rule ccontr)
    assume n: "n \<notin> fst ` set ?ms"
    with other have "map_of accuracies n = None" by simp
    with that show False by (simp add: map_of_eq_None_iff)
  qed
  have tkeys: "n \<in> fst ` set ?ms" if c: "map_of trained n = Some c" for n c
  proof (rule ccontr)
    assume n: "n \<notin> fst ` set ?ms"
    with other have "map_of trained n = map_of ?ms n" by blast
    also from n have "map_of ?ms n = None" by (simp add: map_of_eq_None_iff)
    finally show False using c by simp
  qed
  have "(''Logistic Regression'', lr) \<in> set ?ms" by (simp add: students_def)
  with each have "\<exists>a. map_of accuracies ''Logistic Regression'' = Some a" by fastforce
  then have "map fst accuracies \<noteq> []" by auto
  then obtain k ks where ks: "map fst accuracies = k # ks" by (cases "map fst accuracies") auto
  define name where "name = max_from (map_of accuracies) k ks"
  from ks have best: "py_max (map_of accuracies) (map fst accuracies) = Inr name"
    by (simp add: py_max_def name_def)
  from max_from_greatest [of "map_of accuracies" k ks] ks have
    mem: "name \<in> set (map fst accuracies)" and
    ge: "\<forall>y\<in>set (map fst accuracies). map_of accuracies y \<le> map_of accuracies name"
    by (simp_all add: name_def)
  from mem have nkey: "name \<in> fst ` set ?ms" by (rule akeys)
  then obtain m0 where "(name, m0) \<in> set ?ms" by auto
  with each obtain best_model best_accuracy where
    bm: "map_of trained name = Some best_model" and
    ba: "map_of accuracies name = Some best_accuracy"
    by fastforce
  let ?out = "\<lparr>best_model_name = name, results = accuracies, models = trained,
               files = fs(''distilled_model.joblib'' \<mapsto> best_model)\<rparr>"
  from loop best bm have run:
    "train_select_save fit predict accuracy_score classification_report ?ms
       X_train y_train X_test y_test fs = Inr ?out"
    by (simp add: train_select_save_def)
  have students: "\<forall>(n, m)\<in>set ?ms.
              \<exists>fitted y_pred accuracy.
                fit m X_train y_train = Inr fitted \<and>
                map_of trained n = Some fitted \<and>
                predict fitted X_test = Inr y_pred \<and>
                accuracy_score y_test y_pred = Inr accuracy \<and>
                map_of accuracies n = Some accuracy \<and>
                accuracy \<le> best_accuracy"
  proof (intro ballI)
    fix x assume x: "x \<in> set ?ms"
    obtain n m where nm: "x = (n, m)" by (cases x)
    with x each obtain c y a where
      cya: "fit m X_train y_train = Inr c" "map_of trained n = Some c"
        "predict c X_test = Inr y" "accuracy_score y_test y = Inr a" "map_of accuracies n = Some a"
      by fastforce
    then have "n \<in> set (map fst accuracies)"
      by (metis domI dom_map_of_conv_image_fst set_map)
    with ge cya(5) ba have "a \<le> best_accuracy" by fastforce
    with cya nm show "case x of (n, m) \<Rightarrow>
              \<exists>fitted y_pred accuracy.
                fit m X_train y_train = Inr fitted \<and>
                map_of trained n = Some fitted \<and>
                predict fitted X_test = Inr y_pred \<and>
                accuracy_score y_test y_pred = Inr accuracy \<and>
                map_of accuracies n = Some accuracy \<and>
                accuracy \<le> best_accuracy"
      by auto
  qed
  show ?thesis
  proof (intro exI [of _ ?out] exI [of _ best_model] exI [of _ best_accuracy] conjI)
    show "train_select_save fit predict accuracy_score classification_report
             ?ms X_train y_train X_test y_test fs = Inr ?out"
      by (fact run)
    show "best_model_name ?out \<in> fst ` set ?ms" using nkey by simp
    show "map_of (models ?out) (best_model_name ?out) = Some best_model" using bm by simp
    show "files ?out = fs(''distilled_model.joblib'' \<mapsto> best_model)" by simp
    show "map_of (results ?out) (best_model_name ?out) = Some best_accuracy" using ba by simp
    show "\<forall>(name, model)\<in>set ?ms.
              \<exists>fitted y_pred accuracy.
                fit model X_train y_train = Inr fitted \<and>
                map_of (models ?out) name = Some fitted \<and>
                predict fitted X_test = Inr y_pred \<and>
                accuracy_score y_test y_pred = Inr accuracy \<and>
                map_of (results ?out) name = Some accuracy \<and>
                accuracy \<le> best_accuracy"
      using students by simp
    show "\<forall>name c. map_of (models ?out) name = Some c \<longrightarrow> name \<in> fst ` set ?ms"
      using tkeys by simp
  qed
qed

lemma toy_students_return:
  "\<forall>(name, model)\<in>set (students (0, False) (1, False) (1, False)).
     \<exists>fitted y_pred accuracy report.
       toy_fit model [] [] = Inr fitted \<and> toy_predict fitted [[0], [1], [2]] = Inr y_pred \<and>
       toy_accuracy_score [1, 1, 0] y_pred = Inr accuracy \<and>
       toy_classification_report [1, 1, 0] y_pred = Inr report"
  apply (simp add: students_def toy_fit_def toy_predict_def toy_accuracy_score_def
      toy_classification_report_def numeral_3_eq_3)
  apply (rule conjI)
   apply (rule exI [of _ "1 / 3"])
   apply simp
  apply (rule exI [of _ "2 / 3"])
  apply simp
  done

theorem best_student_is_saved_witness:
  "\<exists>out best_model best_accuracy.
     train_select_save toy_fit toy_predict toy_accuracy_score toy_classification_report
       (students (0, False) (1, False) (1, False)) [] [] [[0], [1], [2]] [1, 1, 0] Map.empty
       = Inr out \<and>
     map_of (models out) (best_model_name out) = Some best_model \<and>
     files out = [''distilled_model.joblib'' \<mapsto> best_model] \<and>
     map_of (results out) (best_model_name out) = Some best_accuracy \<and>
     map_of (models out) ''Logistic Regression'' = Some (0, True)"
proof -
  from best_student_is_saved [where fit = toy_fit and predict = toy_predict
      and accuracy_score = toy_accuracy_score
      and classification_report = toy_classification_report
      and lr = "(0, False)" and rf = "(1, False)" and mlp = "(1, False)"
      and X_train = "[]" and y_train = "[]" and X_test = "[[0], [1], [2]]"
      and y_test = "[1, 1, 0]" and fs = Map.empty, OF toy_students_return]
  obtain out best_model best_accuracy where
    run: "train_select_save toy_fit toy_predict toy_accuracy_score toy_classification_report
       (students (0, False) (1, False) (1, False)) [] [] [[0], [1], [2]] [1, 1, 0] Map.empty
       = Inr out" and
    bm: "map_of (models out) (best_model_name out) = Some best_model" and
    fl: "files out = [''distilled_model.joblib'' \<mapsto> best_model]" and
    ba: "map_of (results out) (best_model_name out) = Some best_accuracy" and
    each: "\<forall>(name, model)\<in>set (students (0, False) (1, False) (1, False)).
              \<exists>fitted y_pred accuracy.
                toy_fit model [] [] = Inr fitted \<and>
                map_of (models out) name = Some fitted \<and>
                toy_predict fitted [[0], [1], [2]] = Inr y_pred \<and>
                toy_accuracy_score [1, 1, 0] y_pred = Inr accuracy \<and>
                map_of (results out) name = Some accuracy \<and>
                accuracy \<le> best_accuracy"
    by blast
  from each have "map_of (models out) ''Logistic Regression'' = Some (0, True)"
    by (auto simp: students_def toy_fit_def)
  with run bm fl ba show ?thesis by blast
qed

end
